theory Spec2Isabelle
  imports Complex_Main "HOL-Library.Sublist" "HOL-Library.Char_ord" "HOL-Library.List_Lexorder"
    "HOL-Library.AList"
begin

section \<open>The lightning address details proxy\<close>

text \<open>
  The repository holds two variants of one Go program: \<^verbatim>\<open>main.go\<close> and a second
  file, called \<^verbatim>\<open>part_000\<close> here. Definitions shared by both carry no suffix; where the
  variants differ, the definition from \<^verbatim>\<open>main.go\<close> ends in \<open>_v1\<close> and the one from
  \<^verbatim>\<open>part_000\<close> in \<open>_v2\<close>.

  Go strings are byte sequences and are modelled as \<open>string\<close> (a list of \<open>char\<close>).
\<close>

subsection \<open>ToUrl\<close>

text \<open>
  \<^verbatim>\<open>strings.Split(s, "@")\<close> for the one-byte separator the program uses: the parts
  between the occurrences of the separator, so one part more than there are separators.
\<close>

fun Split :: "string \<Rightarrow> char \<Rightarrow> string list" where
  "Split [] sep = [[]]"
| "Split (c # cs) sep =
     (if c = sep then [] # Split cs sep
      else (case Split cs sep of
              [] \<Rightarrow> [[c]]
            | p # ps \<Rightarrow> (c # p) # ps))"

text \<open>
  The error of \<^verbatim>\<open>ToUrl\<close>: \<^verbatim>\<open>fmt.Errorf("Invalid lightning address %s", identifier)\<close>
  (the second variant writes the same message in lower case). It carries the identifier.
\<close>

datatype url_error = InvalidLightningAddress string

text \<open>
  \<^verbatim>\<open>ToUrl\<close> returns \<^verbatim>\<open>(lnurlpUrl, keysendUrl, nostrUrl, nil)\<close> or three empty strings and
  the error. \<^verbatim>\<open>parts[0]\<close> and \<^verbatim>\<open>parts[1]\<close> are read only after the length check.
\<close>

definition ToUrl :: "string \<Rightarrow> url_error + (string \<times> string \<times> string)" where
  "ToUrl identifier =
     (case Split identifier (CHR ''@'') of
        [p0, p1] \<Rightarrow>
          (let keysendUrl = ''https://'' @ p1 @ ''/.well-known/keysend/'' @ p0;
               lnurlpUrl = ''https://'' @ p1 @ ''/.well-known/lnurlp/'' @ p0;
               nostrUrl = ''https://'' @ p1 @ ''/.well-known/nostr.json?name='' @ p0
           in Inr (lnurlpUrl, keysendUrl, nostrUrl))
      | _ \<Rightarrow> Inl (InvalidLightningAddress identifier))"

subsection \<open>Decoded JSON, responses and the transport\<close>

text \<open>
  A value decoded by \<^verbatim>\<open>encoding/json\<close> into an \<^verbatim>\<open>interface{}\<close>. JSON \<^verbatim>\<open>null\<close> decodes
  to the nil interface, which is also the zero value of an unset slot, so \<open>JNull\<close> stands
  for both. A number is a \<^verbatim>\<open>float64\<close>, kept here as the rational it denotes. An object is
  a \<^verbatim>\<open>map[string]interface{}\<close>, kept as an association list read with \<open>map_of\<close>.
\<close>

datatype json =
    JNull
  | JBool bool
  | JNumber rat
  | JString string
  | JArray "json list"
  | JObject "(string \<times> json) list"

text \<open>\<^verbatim>\<open>m[key]\<close> on a Go map: the zero value (nil) when the key is missing.\<close>

definition index :: "(string \<times> json) list \<Rightarrow> string \<Rightarrow> json" where
  "index m key = (case map_of m key of None \<Rightarrow> JNull | Some v \<Rightarrow> v)"

text \<open>
  The fields of \<^verbatim>\<open>*http.Response\<close> the program reads. \<open>Body\<close> is what
  \<^verbatim>\<open>json.NewDecoder(response.Body).Decode(&j)\<close> yields on the body: the decoder's error
  text or the decoded value. \<open>Header\<close> maps a canonical header name to its values.
\<close>

record response =
  StatusCode :: int
  Header :: "(string \<times> string list) list"
  Body :: "string + json"

text \<open>\<^verbatim>\<open>Header.Get\<close>: the first value of the key, or the empty string.\<close>

definition Header_Get :: "(string \<times> string list) list \<Rightarrow> string \<Rightarrow> string" where
  "Header_Get h key =
     (case map_of h key of None \<Rightarrow> [] | Some [] \<Rightarrow> [] | Some (v # _) \<Rightarrow> v)"

text \<open>
  What \<^verbatim>\<open>http.Get\<close> returns. \<open>GetOk r\<close> is \<^verbatim>\<open>(r, nil)\<close>. \<open>GetErr e r\<close> is a non-nil
  error with text \<open>e\<close>; the response is then nil (\<open>None\<close>) except when the redirect
  policy stopped the request, where Go returns the last response together with the error.
  The upstream servers are a function from the URL fetched to this result.
\<close>

datatype get_result = GetErr string "response option" | GetOk response

type_synonym transport = "string \<Rightarrow> get_result"

text \<open>A panic of the Go runtime, as a value.\<close>

datatype panic = NilPointerDereference | InterfaceConversion

subsection \<open>GetJSON\<close>

text \<open>
  \<^verbatim>\<open>GetJSON\<close> returns \<^verbatim>\<open>(interface{}, *http.Response, error)\<close>: here the document, the
  response if there is one, and the error text if there is an error. \<^verbatim>\<open>%v\<close> prints a nil
  error as \<^verbatim>\<open><nil>\<close>. The wait group only signals completion and is not modelled.
\<close>

type_synonym fetched = "json \<times> response option \<times> string option"

definition GetJSON_v1 :: "transport \<Rightarrow> string \<Rightarrow> fetched" where
  "GetJSON_v1 http_Get url =
     (case http_Get url of
        GetErr err response \<Rightarrow>
          (JNull, response, Some (''No details: '' @ url @ '' - '' @ err))
      | GetOk response \<Rightarrow>
          if StatusCode response > 300
          then (JNull, Some response, Some (''No details: '' @ url @ '' - <nil>''))
          else (case Body response of
                  Inl err \<Rightarrow> (JNull, Some response, Some (''Invalid JSON: '' @ err))
                | Inr j \<Rightarrow> (j, Some response, None)))"

text \<open>\<^verbatim>\<open>strings.Replace(s, old, new, 1)\<close>: the first occurrence of \<open>old\<close> is replaced.\<close>

fun Replace1 :: "string \<Rightarrow> string \<Rightarrow> string \<Rightarrow> string" where
  "Replace1 [] old new = (if old = [] then new else [])"
| "Replace1 (c # cs) old new =
     (if prefix old (c # cs) then new @ drop (length old) (c # cs)
      else c # Replace1 cs old new)"

definition rewrite :: "string \<Rightarrow> string" where
  "rewrite url = Replace1 url ''https://getalby.com'' ''http://alby-mainnet-getalbycom''"

definition GetJSON_v2 :: "transport \<Rightarrow> string \<Rightarrow> fetched" where
  "GetJSON_v2 http_Get url =
     (case http_Get (rewrite url) of
        GetErr err response \<Rightarrow>
          (JNull, response, Some (''no details: '' @ url @ '' - '' @ err))
      | GetOk response \<Rightarrow>
          if StatusCode response > 300
          then (JNull, Some response, Some (''no details: '' @ url @ '' - <nil>''))
          else (case Body response of
                  Inl err \<Rightarrow> (JNull, Some response, Some (''invalid JSON: '' @ err))
                | Inr j \<Rightarrow> (j, Some response, None)))"

subsection \<open>Query parameters: url.Values\<close>

text \<open>
  \<^verbatim>\<open>url.Values\<close> is a \<^verbatim>\<open>map[string][]string\<close>, kept as an association list from a key
  to its values. \<^verbatim>\<open>Encode\<close> sorts the keys, so the order of the list is not observable.
\<close>

type_synonym Values = "(string \<times> string list) list"

definition Values_index :: "Values \<Rightarrow> string \<Rightarrow> string list" where
  "Values_index v key = (case map_of v key of None \<Rightarrow> [] | Some vs \<Rightarrow> vs)"

definition Values_Get :: "Values \<Rightarrow> string \<Rightarrow> string" where
  "Values_Get v key = (case Values_index v key of [] \<Rightarrow> [] | x # _ \<Rightarrow> x)"

definition Values_Del :: "Values \<Rightarrow> string \<Rightarrow> Values" where
  "Values_Del v key = AList.delete key v"

definition Values_Add :: "Values \<Rightarrow> string \<Rightarrow> string \<Rightarrow> Values" where
  "Values_Add v key val = AList.update key (Values_index v key @ [val]) v"

definition upperhex :: "nat \<Rightarrow> char" where
  "upperhex n = ''0123456789ABCDEF'' ! n"

text \<open>
  \<^verbatim>\<open>url.QueryEscape\<close>: letters, digits and \<^verbatim>\<open>-_.~\<close> stay, a space becomes \<^verbatim>\<open>+\<close>, every
  other byte becomes \<^verbatim>\<open>%XX\<close>.
\<close>

definition unreserved :: "char \<Rightarrow> bool" where
  "unreserved c =
     (let n = (of_char c :: nat)
      in (97 \<le> n \<and> n \<le> 122) \<or> (65 \<le> n \<and> n \<le> 90) \<or> (48 \<le> n \<and> n \<le> 57)
         \<or> c = CHR ''-'' \<or> c = CHR ''_'' \<or> c = CHR ''.'' \<or> c = CHR ''~'')"

fun QueryEscape :: "string \<Rightarrow> string" where
  "QueryEscape [] = []"
| "QueryEscape (c # cs) =
     (if unreserved c then c # QueryEscape cs
      else if c = CHR '' '' then CHR ''+'' # QueryEscape cs
      else CHR ''%'' # upperhex (of_char c div 16) # upperhex (of_char c mod 16)
             # QueryEscape cs)"

text \<open>\<^verbatim>\<open>strings.Join\<close>.\<close>

fun Join :: "string list \<Rightarrow> string \<Rightarrow> string" where
  "Join [] sep = []"
| "Join [x] sep = x"
| "Join (x # y # ys) sep = x @ sep @ Join (y # ys) sep"

text \<open>
  \<^verbatim>\<open>Values.Encode\<close>: for the keys in sorted order and each value of a key in turn,
  \<^verbatim>\<open>key=value\<close>, both escaped, joined by \<^verbatim>\<open>&\<close>. \<open>Values_pairs\<close> is the list of pairs
  it writes.
\<close>

definition Values_pairs :: "Values \<Rightarrow> (string \<times> string) list" where
  "Values_pairs v =
     concat (map (\<lambda>k. map (\<lambda>x. (k, x)) (Values_index v k)) (sort (remdups (map fst v))))"

definition Encode :: "Values \<Rightarrow> string" where
  "Encode v =
     Join (map (\<lambda>kx. QueryEscape (fst kx) @ ''='' @ QueryEscape (snd kx)) (Values_pairs v)) ''&''"

subsection \<open>Parsing and printing a URL\<close>

text \<open>\<^verbatim>\<open>strings.Cut\<close> at a one-byte separator: the text before and after its first occurrence.\<close>

definition Cut :: "string \<Rightarrow> char \<Rightarrow> string \<times> string" where
  "Cut s sep = (takeWhile (\<lambda>c. c \<noteq> sep) s, drop 1 (dropWhile (\<lambda>c. c \<noteq> sep) s))"

definition unhex :: "char \<Rightarrow> nat option" where
  "unhex c =
     (let n = (of_char c :: nat)
      in if 48 \<le> n \<and> n \<le> 57 then Some (n - 48)
         else if 97 \<le> n \<and> n \<le> 102 then Some (n - 97 + 10)
         else if 65 \<le> n \<and> n \<le> 70 then Some (n - 65 + 10)
         else None)"

text \<open>
  \<^verbatim>\<open>url.QueryUnescape\<close>: \<^verbatim>\<open>%XX\<close> becomes the byte, \<^verbatim>\<open>+\<close> a space; \<open>None\<close> is the
  error for a \<^verbatim>\<open>%\<close> not followed by two hexadecimal digits.
\<close>

fun QueryUnescape :: "string \<Rightarrow> string option" where
  "QueryUnescape [] = Some []"
| "QueryUnescape (c # cs) =
     (if c = CHR ''%'' then
        (case cs of
           h1 # h2 # rest \<Rightarrow>
             (case (unhex h1, unhex h2) of
                (Some a, Some b) \<Rightarrow>
                  map_option (\<lambda>r. char_of (a * 16 + b) # r) (QueryUnescape rest)
              | _ \<Rightarrow> None)
         | _ \<Rightarrow> None)
      else if c = CHR ''+'' then map_option (\<lambda>r. CHR '' '' # r) (QueryUnescape cs)
      else map_option (\<lambda>r. c # r) (QueryUnescape cs))"

text \<open>
  One \<^verbatim>\<open>&\<close>-separated piece of a query string, as the loop of \<^verbatim>\<open>url.ParseQuery\<close> treats
  it: \<open>None\<close> when the piece is skipped (it is empty, holds a semicolon, or does not
  unescape), else the key and the value.
\<close>

definition parse_pair :: "string \<Rightarrow> (string \<times> string) option" where
  "parse_pair piece =
     (if CHR '';'' \<in> set piece then None
      else if piece = [] then None
      else (case QueryUnescape (fst (Cut piece (CHR ''=''))) of
              None \<Rightarrow> None
            | Some key \<Rightarrow>
                (case QueryUnescape (snd (Cut piece (CHR ''=''))) of
                   None \<Rightarrow> None
                 | Some val \<Rightarrow> Some (key, val))))"

text \<open>
  \<^verbatim>\<open>URL.Query()\<close> is \<^verbatim>\<open>ParseQuery(u.RawQuery)\<close> with the error dropped: the pairs that
  parse are kept, in order.
\<close>

definition ParseQuery :: "string \<Rightarrow> Values" where
  "ParseQuery query =
     fold (\<lambda>piece m. case parse_pair piece of
                        None \<Rightarrow> m
                      | Some (key, val) \<Rightarrow> Values_Add m key val)
          (Split query (CHR ''&'')) []"

text \<open>
  A parsed \<^verbatim>\<open>url.URL\<close>. The scheme, authority and path are carried as one string,
  \<open>Prefix\<close>, as written; Go splits them further, rejects a malformed scheme, authority
  or escape and may re-escape the path when it prints the URL, which is outside this
  model, so outside the plain callbacks defined below \<open>url_Parse\<close> may accept a
  string that Go rejects. The fragment is carried as written, too. The split at
  \<^verbatim>\<open>#\<close> and \<^verbatim>\<open>?\<close>, the rejection of control bytes and the printing of the query follow
  \<^verbatim>\<open>url.Parse\<close> and \<^verbatim>\<open>URL.String\<close>.
\<close>

record URL =
  Prefix :: string
  ForceQuery :: bool
  RawQuery :: string
  Fragment :: string

definition ctl_byte :: "char \<Rightarrow> bool" where
  "ctl_byte c = ((of_char c :: nat) < 32 \<or> (of_char c :: nat) = 127)"

definition url_Parse :: "string \<Rightarrow> URL option" where
  "url_Parse rawURL =
     (let u = fst (Cut rawURL (CHR ''#''));
          frag = snd (Cut rawURL (CHR ''#''))
      in if list_ex ctl_byte u then None
         else if suffix ''?'' u \<and> count_list u (CHR ''?'') = 1
         then Some \<lparr>Prefix = butlast u, ForceQuery = True, RawQuery = [], Fragment = frag\<rparr>
         else Some \<lparr>Prefix = fst (Cut u (CHR ''?'')), ForceQuery = False,
                    RawQuery = snd (Cut u (CHR ''?'')), Fragment = frag\<rparr>)"

definition URL_String :: "URL \<Rightarrow> string" where
  "URL_String u =
     Prefix u
     @ (if ForceQuery u \<or> RawQuery u \<noteq> [] then ''?'' @ RawQuery u else [])
     @ (if Fragment u \<noteq> [] then ''#'' @ Fragment u else [])"

subsection \<open>The URL of the invoice fetch\<close>

text \<open>
  \<^verbatim>\<open>main.go\<close>: the inbound parameters without \<^verbatim>\<open>ln\<close> are encoded and put behind the
  callback and a question mark.
\<close>

definition invoiceUrl_v1 :: "string \<Rightarrow> Values \<Rightarrow> string" where
  "invoiceUrl_v1 callback query =
     (let invoiceParams = Encode (Values_Del query ''ln'')
      in callback @ ''?'' @ invoiceParams)"

text \<open>
  \<^verbatim>\<open>part_000\<close>: the callback is parsed, every value of every inbound parameter other than
  \<^verbatim>\<open>ln\<close> is added to the callback's own query, and the URL is printed again. \<open>None\<close>
  is the error of \<^verbatim>\<open>url.Parse\<close>.
\<close>

definition merge_values :: "Values \<Rightarrow> Values \<Rightarrow> Values" where
  "merge_values values invoiceParams =
     fold (\<lambda>kv vs. fold (\<lambda>v vs'. Values_Add vs' (fst kv) v) (snd kv) vs) invoiceParams values"

definition invoiceUrl_v2 :: "string \<Rightarrow> Values \<Rightarrow> string option" where
  "invoiceUrl_v2 callback query =
     (let invoiceParams = Values_Del query ''ln''
      in case url_Parse callback of
           None \<Rightarrow> None
         | Some invoiceUrl \<Rightarrow>
             (let values = merge_values (ParseQuery (RawQuery invoiceUrl)) invoiceParams
              in Some (URL_String (invoiceUrl\<lparr>RawQuery := Encode values\<rparr>))))"

subsection \<open>Replies\<close>

text \<open>
  What a handler writes: the status code, the \<^verbatim>\<open>Cache-Control\<close> header if it was set,
  whether the body is indented (\<^verbatim>\<open>c.JSONPretty\<close>) or not (\<^verbatim>\<open>c.JSON\<close>), and the struct
  that is marshalled. A handler that panics writes nothing itself; its result is the panic.
\<close>

record 'b reply =
  Code :: int
  CacheControl :: "string option"
  Pretty :: bool
  Payload :: 'b

definition JSON :: "int \<Rightarrow> 'b \<Rightarrow> 'b reply" where
  "JSON code b = \<lparr>Code = code, CacheControl = None, Pretty = False, Payload = b\<rparr>"

definition JSONPretty :: "int \<Rightarrow> 'b \<Rightarrow> 'b reply" where
  "JSONPretty code b = \<lparr>Code = code, CacheControl = None, Pretty = True, Payload = b\<rparr>"

record GIResponse =
  Invoice :: json

record LNResponse =
  Lnurlp :: json
  Keysend :: json
  Nostr :: json

text \<open>\<^verbatim>\<open>main.go\<close> declares one more field in \<^verbatim>\<open>LNResponse\<close>, the error.\<close>

record ErrorResponse =
  Status :: int
  Message :: string

record LNResponse_v1 = LNResponse +
  Error :: ErrorResponse

text \<open>The bodies as \<^verbatim>\<open>encoding/json\<close> marshals them: the fields in order, under their tags.\<close>

definition GIResponse_json :: "GIResponse \<Rightarrow> json" where
  "GIResponse_json b = JObject [(''invoice'', Invoice b)]"

definition LNResponse_json :: "LNResponse \<Rightarrow> json" where
  "LNResponse_json b =
     JObject [(''lnurlp'', Lnurlp b), (''keysend'', Keysend b), (''nostr'', Nostr b)]"

definition LNResponse_v1_json :: "LNResponse_v1 \<Rightarrow> json" where
  "LNResponse_v1_json b =
     JObject [(''lnurlp'', Lnurlp b), (''keysend'', Keysend b), (''nostr'', Nostr b),
              (''error'', JObject [(''status'', JNumber (of_int (Status (Error b)))),
                                   (''message'', JString (Message (Error b)))])]"

text \<open>What a client sees of a handler's result: the panic, or the reply with its body marshalled.\<close>

definition surface :: "('b \<Rightarrow> json) \<Rightarrow> panic + 'b reply \<Rightarrow> panic + json reply" where
  "surface marshal res =
     (case res of
        Inl p \<Rightarrow> Inl p
      | Inr r \<Rightarrow> Inr \<lparr>Code = Code r, CacheControl = CacheControl r, Pretty = Pretty r,
                      Payload = marshal (Payload r)\<rparr>)"

subsection \<open>The handler of /lightning-address-details\<close>

text \<open>
  The three goroutines each call \<^verbatim>\<open>GetJSON\<close> and store the document in their slot of
  the body when the call returned no error; \<^verbatim>\<open>wg.Wait()\<close> joins them. The model runs them
  one after the other, each looking at the error of its own call, and runs the test after
  all three have stored their results. Scheduling is not modelled: the goroutines share
  the variable \<^verbatim>\<open>err\<close>, and \<^verbatim>\<open>wg.Done()\<close> is deferred inside \<^verbatim>\<open>GetJSON\<close>, so it runs
  before the goroutine stores what \<^verbatim>\<open>GetJSON\<close> returned; the model gives the result of
  every execution in which each goroutine has stored its results and tested its own error
  before the handler goes on.

  The test after the join, with Go's evaluation order: the three comparisons with nil
  first, then the status codes from left to right, stopping at the first one below 300.
  Reading \<^verbatim>\<open>StatusCode\<close> through a nil response panics.
\<close>

definition all_failed ::
  "response option \<Rightarrow> response option \<Rightarrow> response option \<Rightarrow> panic + bool" where
  "all_failed lnurlpResponse keysendResponse nostrResponse =
     (if lnurlpResponse = None \<and> keysendResponse = None \<and> nostrResponse = None
      then Inr True
      else (case lnurlpResponse of
              None \<Rightarrow> Inl NilPointerDereference
            | Some lr \<Rightarrow>
                if StatusCode lr \<ge> 300 then
                  (case keysendResponse of
                     None \<Rightarrow> Inl NilPointerDereference
                   | Some kr \<Rightarrow>
                       if StatusCode kr \<ge> 300 then
                         (case nostrResponse of
                            None \<Rightarrow> Inl NilPointerDereference
                          | Some nr \<Rightarrow> Inr (StatusCode nr \<ge> 300))
                       else Inr False)
                else Inr False))"

text \<open>The slot a goroutine leaves behind: the document when there was no error, else nil.\<close>

definition slot :: "fetched \<Rightarrow> json" where
  "slot f = (case f of (doc, response, err) \<Rightarrow> if err = None then doc else JNull)"

text \<open>The success path of both variants: the header of the lnurlp response is copied.\<close>

definition details_ok :: "response option \<Rightarrow> 'b \<Rightarrow> panic + 'b reply" where
  "details_ok lnurlpResponse responseBody =
     (case lnurlpResponse of
        None \<Rightarrow> Inl NilPointerDereference
      | Some lr \<Rightarrow>
          Inr ((JSONPretty 200 responseBody)
                 \<lparr>CacheControl := Some (Header_Get (Header lr) ''Cache-Control'')\<rparr>))"

definition lightning_address_details_v1 ::
  "transport \<Rightarrow> string \<Rightarrow> panic + LNResponse_v1 reply" where
  "lightning_address_details_v1 http_Get ln' =
     (let responseBody = \<lparr>Lnurlp = JNull, Keysend = JNull, Nostr = JNull,
                           Error = \<lparr>Status = 0, Message = []\<rparr>\<rparr>
      in case ToUrl ln' of
           Inl err \<Rightarrow> Inr (JSON 400 responseBody)
         | Inr (lnurlpUrl, keysendUrl, nostrUrl) \<Rightarrow>
             (let l = GetJSON_v1 http_Get lnurlpUrl;
                  k = GetJSON_v1 http_Get keysendUrl;
                  n = GetJSON_v1 http_Get nostrUrl;
                  lnurlpResponse = fst (snd l);
                  lnurlpError = snd (snd l);
                  responseBody = responseBody\<lparr>Lnurlp := slot l, Keysend := slot k, Nostr := slot n\<rparr>
              in case all_failed lnurlpResponse (fst (snd k)) (fst (snd n)) of
                   Inl p \<Rightarrow> Inl p
                 | Inr True \<Rightarrow>
                     (case lnurlpResponse of
                        None \<Rightarrow> Inl NilPointerDereference
                      | Some lr \<Rightarrow>
                          (case lnurlpError of
                             None \<Rightarrow> Inl NilPointerDereference
                           | Some msg \<Rightarrow>
                               Inr (JSON 400 (responseBody
                                      \<lparr>Error := \<lparr>Status = StatusCode lr, Message = msg\<rparr>\<rparr>))))
                 | Inr False \<Rightarrow> details_ok lnurlpResponse responseBody))"

definition lightning_address_details_v2 ::
  "transport \<Rightarrow> string \<Rightarrow> panic + LNResponse reply" where
  "lightning_address_details_v2 http_Get ln' =
     (let responseBody = \<lparr>Lnurlp = JNull, Keysend = JNull, Nostr = JNull\<rparr>
      in case ToUrl ln' of
           Inl err \<Rightarrow> Inr (JSON 400 responseBody)
         | Inr (lnurlpUrl, keysendUrl, nostrUrl) \<Rightarrow>
             (let l = GetJSON_v2 http_Get lnurlpUrl;
                  k = GetJSON_v2 http_Get keysendUrl;
                  n = GetJSON_v2 http_Get nostrUrl;
                  lnurlpResponse = fst (snd l);
                  responseBody = responseBody\<lparr>Lnurlp := slot l, Keysend := slot k, Nostr := slot n\<rparr>
              in case all_failed lnurlpResponse (fst (snd k)) (fst (snd n)) of
                   Inl p \<Rightarrow> Inl p
                 | Inr True \<Rightarrow> Inr (JSON 400 responseBody)
                 | Inr False \<Rightarrow> details_ok lnurlpResponse responseBody))"

subsection \<open>The handler of /generate-invoice\<close>

text \<open>
  The end of the handler, the same in both variants: the invoice is stored when its fetch
  returned no error, and the reply is chosen from the invoice response. The status code
  written when the invoice response has a status above 300 is read from
  \<^verbatim>\<open>lnurlpResponse\<close>.
\<close>

definition invoice_reply :: "response \<Rightarrow> fetched \<Rightarrow> GIResponse reply" where
  "invoice_reply lnurlpResponse f =
     (case f of (invoice, invoiceResponse, err) \<Rightarrow>
        (let responseBody = \<lparr>Invoice = (if err = None then invoice else JNull)\<rparr>
         in case invoiceResponse of
              None \<Rightarrow> JSON 400 responseBody
            | Some ir \<Rightarrow>
                if StatusCode ir > 300
                then JSONPretty (StatusCode lnurlpResponse) responseBody
                else JSONPretty 200 responseBody))"

text \<open>
  \<^verbatim>\<open>lnurlp.(map[string]interface{})["callback"]\<close>: the assertion panics unless the
  document is an object; a missing key gives nil.
\<close>

definition callback_of :: "json \<Rightarrow> panic + json" where
  "callback_of lnurlp =
     (case lnurlp of JObject m \<Rightarrow> Inr (index m ''callback'') | _ \<Rightarrow> Inl InterfaceConversion)"

text \<open>\<^verbatim>\<open>callback.(string)\<close>: panics unless the value is a string.\<close>

definition as_string :: "json \<Rightarrow> panic + string" where
  "as_string v = (case v of JString s \<Rightarrow> Inr s | _ \<Rightarrow> Inl InterfaceConversion)"

text \<open>
  \<open>query\<close> is \<^verbatim>\<open>c.QueryParams()\<close>, the parsed query string of the inbound request. The
  variable \<^verbatim>\<open>ln\<close> of the source is written \<open>ln'\<close>, as \<open>ln\<close> is the logarithm in HOL.
\<close>

definition generate_invoice_v1 :: "transport \<Rightarrow> Values \<Rightarrow> panic + GIResponse reply" where
  "generate_invoice_v1 http_Get query =
     (let responseBody = \<lparr>Invoice = JNull\<rparr>;
          ln' = Values_Get query ''ln''
      in case ToUrl ln' of
           Inl err \<Rightarrow> Inr (JSON 400 responseBody)
         | Inr (lnurlpUrl, keysendUrl, nostrUrl) \<Rightarrow>
             (case GetJSON_v1 http_Get lnurlpUrl of (lnurlp, lnurlpResponse, err) \<Rightarrow>
                (case lnurlpResponse of
                   None \<Rightarrow> Inr (JSON 400 responseBody)
                 | Some lr \<Rightarrow>
                     if StatusCode lr > 300 then Inr (JSONPretty (StatusCode lr) responseBody)
                     else (case callback_of lnurlp of
                             Inl p \<Rightarrow> Inl p
                           | Inr callback \<Rightarrow>
                               if callback = JNull then Inr (JSON 400 responseBody)
                               else (case as_string callback of
                                       Inl p \<Rightarrow> Inl p
                                     | Inr s \<Rightarrow>
                                         Inr (invoice_reply lr
                                                (GetJSON_v1 http_Get (invoiceUrl_v1 s query))))))))"

definition generate_invoice_v2 :: "transport \<Rightarrow> Values \<Rightarrow> panic + GIResponse reply" where
  "generate_invoice_v2 http_Get query =
     (let responseBody = \<lparr>Invoice = JNull\<rparr>;
          ln' = Values_Get query ''ln''
      in case ToUrl ln' of
           Inl err \<Rightarrow> Inr (JSON 400 responseBody)
         | Inr (lnurlpUrl, keysendUrl, nostrUrl) \<Rightarrow>
             (case GetJSON_v2 http_Get lnurlpUrl of (lnurlp, lnurlpResponse, err) \<Rightarrow>
                (case lnurlpResponse of
                   None \<Rightarrow> Inr (JSON 400 responseBody)
                 | Some lr \<Rightarrow>
                     if StatusCode lr > 300 then Inr (JSONPretty (StatusCode lr) responseBody)
                     else (case callback_of lnurlp of
                             Inl p \<Rightarrow> Inl p
                           | Inr callback \<Rightarrow>
                               if callback = JNull then Inr (JSON 400 responseBody)
                               else (case as_string callback of
                                       Inl p \<Rightarrow> Inl p
                                     | Inr s \<Rightarrow>
                                         (case invoiceUrl_v2 s query of
                                            None \<Rightarrow> Inr (JSON 400 responseBody)
                                          | Some u \<Rightarrow>
                                              Inr (invoice_reply lr
                                                     (GetJSON_v2 http_Get u))))))))"

subsection \<open>Upstream behaviours used in the examples\<close>

text \<open>
  An upstream that answers with a status code and a body that decodes to a document, and
  one that cannot be reached: \<^verbatim>\<open>http.Get\<close> returns an error and no response.
\<close>

definition answer :: "int \<Rightarrow> json \<Rightarrow> get_result" where
  "answer code doc = GetOk \<lparr>StatusCode = code, Header = [], Body = Inr doc\<rparr>"

definition unreachable :: get_result where
  "unreachable = GetErr ''dial tcp: connection refused'' None"

text \<open>
  An upstream for the examples that exercise the rewrite of the second variant: the lnurlp
  document of \<^verbatim>\<open>hello@getalby.com\<close> is served at the rewritten host and names a callback,
  which answers the invoice request for an amount of 1000.
\<close>

definition example_upstream :: transport where
  "example_upstream u =
     (if u = ''http://alby-mainnet-getalbycom/.well-known/lnurlp/hello''
      then GetOk \<lparr>StatusCode = 200, Header = [(''Cache-Control'', [''max-age=60''])],
                  Body = Inr (JObject [(''callback'', JString ''https://pay.example/cb'')])\<rparr>
      else if u = ''https://pay.example/cb?amount=1000''
      then answer 200 (JObject [(''pr'', JString ''lnbc1'')])
      else unreachable)"

definition example_query :: Values where
  "example_query = [(''ln'', [''hello@getalby.com'']), (''amount'', [''1000''])]"

text \<open>
  An upstream that names a callback with a query of its own and serves the invoice at the
  merged URL only.
\<close>

definition merged_only_upstream :: transport where
  "merged_only_upstream u =
     (if u = ''https://example.com/.well-known/lnurlp/alice''
      then answer 200 (JObject [(''callback'', JString ''https://pay.example/cb?amount=1000'')])
      else if u = ''https://pay.example/cb?amount=1000&comment=hi''
      then answer 200 (JObject [(''pr'', JString ''lnbc1'')])
      else unreachable)"

subsection \<open>Plain callbacks\<close>

text \<open>
  A class of callbacks on which \<open>url_Parse\<close> and \<open>URL_String\<close> above give what Go's
  \<^verbatim>\<open>url.Parse\<close> and \<^verbatim>\<open>URL.String\<close> give: the scheme \<^verbatim>\<open>https\<close>, a host that is not empty
  and written with lower-case letters, digits, hyphens and dots, and a path that is empty
  or starts with a slash and is written with letters, digits, \<^verbatim>\<open>-_.~\<close> and slashes. Such
  a URL has no user, port, escape, query or fragment; Go parses it without error and
  prints it as written, with a question mark and the query behind it when the query is
  not empty.
\<close>

definition host_char :: "char \<Rightarrow> bool" where
  "host_char c =
     (let n = (of_char c :: nat)
      in (97 \<le> n \<and> n \<le> 122) \<or> (48 \<le> n \<and> n \<le> 57) \<or> c = CHR ''-'' \<or> c = CHR ''.'')"

definition path_char :: "char \<Rightarrow> bool" where
  "path_char c = (unreserved c \<or> c = CHR ''/'')"

definition plain_callback :: "string \<Rightarrow> bool" where
  "plain_callback s =
     (let rest = drop 8 s;
          host = takeWhile (\<lambda>c. c \<noteq> CHR ''/'') rest;
          path = dropWhile (\<lambda>c. c \<noteq> CHR ''/'') rest
      in take 8 s = ''https://'' \<and> host \<noteq> [] \<and> list_all host_char host
         \<and> list_all path_char path)"

section \<open>Properties of ToUrl\<close>

lemma Split_not_Nil: "Split s sep \<noteq> []"
  by (induction s) (auto split: list.splits)

lemma length_Split: "length (Split s sep) = Suc (count_list s sep)"
proof (induction s)
  case Nil
  show ?case by simp
next
  case (Cons c cs)
  then show ?case
    using Split_not_Nil [of cs sep] by (cases "Split cs sep") auto
qed

lemma Split_no_sep: "sep \<notin> set s \<Longrightarrow> Split s sep = [s]"
  by (induction s) auto

lemma Split_append:
  "sep \<notin> set a \<Longrightarrow> Split (a @ sep # b) sep = a # Split b sep"
  by (induction a) auto

lemma ToUrl_error_iff_length:
  "isl (ToUrl s) \<longleftrightarrow> length (Split s (CHR ''@'')) \<noteq> 2"
  by (auto simp: ToUrl_def Let_def split: list.splits)

lemma Split_one: "Split s sep = [b] \<Longrightarrow> s = b \<and> sep \<notin> set b"
proof (induction s arbitrary: b)
  case Nil
  then show ?case by simp
next
  case (Cons c cs)
  show ?case
  proof (cases "c = sep")
    case True
    with Cons.prems show ?thesis using Split_not_Nil [of cs sep] by simp
  next
    case False
    with Cons.prems obtain p where p: "Split cs sep = [p]" "b = c # p"
      using Split_not_Nil [of cs sep] by (auto split: list.splits)
    with Cons.IH [of p] False show ?thesis by simp
  qed
qed

lemma Split_two:
  "Split s sep = [a, b] \<Longrightarrow> s = a @ sep # b \<and> sep \<notin> set a \<and> sep \<notin> set b"
proof (induction s arbitrary: a)
  case Nil
  then show ?case by simp
next
  case (Cons c cs)
  show ?case
  proof (cases "c = sep")
    case True
    with Cons.prems have "a = []" "Split cs sep = [b]" by simp_all
    with Split_one [of cs sep b] True show ?thesis by simp
  next
    case False
    with Cons.prems obtain p where p: "Split cs sep = [p, b]" "a = c # p"
      using Split_not_Nil [of cs sep] by (auto split: list.splits)
    with Cons.IH [of p] False show ?thesis by simp
  qed
qed

text \<open>
  C7, as amended. \<^verbatim>\<open>ToUrl\<close> returns its error exactly when the identifier does not
  hold exactly one \<^verbatim>\<open>@\<close>, that is, when splitting it at \<^verbatim>\<open>@\<close> does not give exactly two
  parts. Nothing is asked of the two parts: either may be empty.
\<close>

theorem ToUrl_error_iff:
  "ToUrl identifier = Inl (InvalidLightningAddress identifier)
     \<longleftrightarrow> count_list identifier (CHR ''@'') \<noteq> 1"
proof -
  have "isl (ToUrl identifier) \<longleftrightarrow> count_list identifier (CHR ''@'') \<noteq> 1"
    by (simp add: ToUrl_error_iff_length length_Split)
  moreover have "isl (ToUrl identifier)
      \<longleftrightarrow> ToUrl identifier = Inl (InvalidLightningAddress identifier)"
    by (auto simp: ToUrl_def Let_def split: list.splits)
  ultimately show ?thesis by simp
qed

theorem ToUrl_error_iff_witness:
  "ToUrl ''a@b@c'' = Inl (InvalidLightningAddress ''a@b@c'')
   \<and> ToUrl ''noatsign'' = Inl (InvalidLightningAddress ''noatsign'')
   \<and> ToUrl ''alice@example.com'' \<noteq> Inl (InvalidLightningAddress ''alice@example.com'')"
  using ToUrl_error_iff [of "''a@b@c''"] ToUrl_error_iff [of "''noatsign''"]
    ToUrl_error_iff [of "''alice@example.com''"]
  by simp

text \<open>
  C7, as stated, fails: an identifier with an empty local part or an empty domain is
  accepted, and the URLs are built from the empty part.
\<close>

theorem ToUrl_empty_part_accepted:
  "ToUrl ''@example.com'' =
     Inr (''https://example.com/.well-known/lnurlp/'',
          ''https://example.com/.well-known/keysend/'',
          ''https://example.com/.well-known/nostr.json?name='')
   \<and> ToUrl ''alice@'' =
     Inr (''https:///.well-known/lnurlp/alice'',
          ''https:///.well-known/keysend/alice'',
          ''https:///.well-known/nostr.json?name=alice'')"
  by (simp add: ToUrl_def)

text \<open>
  C8. \<^verbatim>\<open>ToUrl\<close> accepts an identifier with the three URLs exactly when the identifier
  is \<open>local@domain\<close>, neither part holding an \<^verbatim>\<open>@\<close>, and the URLs are the three templates
  with \<open>domain\<close> and \<open>local\<close> put in as they are.
\<close>

theorem ToUrl_templates:
  "ToUrl identifier = Inr (lnurlpUrl, keysendUrl, nostrUrl)
     \<longleftrightarrow> (\<exists>local domain.
            identifier = local @ ''@'' @ domain
          \<and> CHR ''@'' \<notin> set local \<and> CHR ''@'' \<notin> set domain
          \<and> lnurlpUrl = ''https://'' @ domain @ ''/.well-known/lnurlp/'' @ local
          \<and> keysendUrl = ''https://'' @ domain @ ''/.well-known/keysend/'' @ local
          \<and> nostrUrl = ''https://'' @ domain @ ''/.well-known/nostr.json?name='' @ local)"
  (is "?L \<longleftrightarrow> ?R")
proof
  assume ?L
  then obtain p0 p1 where sp: "Split identifier (CHR ''@'') = [p0, p1]"
    and urls: "lnurlpUrl = ''https://'' @ p1 @ ''/.well-known/lnurlp/'' @ p0"
      "keysendUrl = ''https://'' @ p1 @ ''/.well-known/keysend/'' @ p0"
      "nostrUrl = ''https://'' @ p1 @ ''/.well-known/nostr.json?name='' @ p0"
    by (auto simp: ToUrl_def Let_def split: list.splits)
  from Split_two [OF sp] urls show ?R by auto
next
  assume ?R
  then obtain local domain where id: "identifier = local @ ''@'' @ domain"
    and no: "CHR ''@'' \<notin> set local" "CHR ''@'' \<notin> set domain"
    and urls: "lnurlpUrl = ''https://'' @ domain @ ''/.well-known/lnurlp/'' @ local"
      "keysendUrl = ''https://'' @ domain @ ''/.well-known/keysend/'' @ local"
      "nostrUrl = ''https://'' @ domain @ ''/.well-known/nostr.json?name='' @ local"
    by blast
  from no have "Split identifier (CHR ''@'') = [local, domain]"
    unfolding id using Split_append [of "CHR ''@''" local domain] Split_no_sep [of "CHR ''@''" domain]
    by simp
  then show ?L by (simp add: ToUrl_def urls)
qed

theorem ToUrl_templates_witness:
  "ToUrl ''alice@example.com'' =
     Inr (''https://example.com/.well-known/lnurlp/alice'',
          ''https://example.com/.well-known/keysend/alice'',
          ''https://example.com/.well-known/nostr.json?name=alice'')"
proof -
  have "\<exists>local domain.
            ''alice@example.com'' = local @ ''@'' @ domain
          \<and> CHR ''@'' \<notin> set local \<and> CHR ''@'' \<notin> set domain
          \<and> ''https://example.com/.well-known/lnurlp/alice''
              = ''https://'' @ domain @ ''/.well-known/lnurlp/'' @ local
          \<and> ''https://example.com/.well-known/keysend/alice''
              = ''https://'' @ domain @ ''/.well-known/keysend/'' @ local
          \<and> ''https://example.com/.well-known/nostr.json?name=alice''
              = ''https://'' @ domain @ ''/.well-known/nostr.json?name='' @ local"
    by (rule exI [of _ "''alice''"], rule exI [of _ "''example.com''"]) simp
  then show ?thesis
    using ToUrl_templates [of "''alice@example.com''"
        "''https://example.com/.well-known/lnurlp/alice''"
        "''https://example.com/.well-known/keysend/alice''"
        "''https://example.com/.well-known/nostr.json?name=alice''"]
    by blast
qed

section \<open>Properties of GetJSON\<close>

text \<open>
  \<^verbatim>\<open>GetJSON\<close> returns an error exactly when the transport failed, the status code is
  above 300, or the body does not decode; the response, when there is one, is returned
  in every case.
\<close>

lemma GetJSON_v1_error_iff:
  "snd (snd (GetJSON_v1 http_Get url)) \<noteq> None
     \<longleftrightarrow> (case http_Get url of
            GetErr err response \<Rightarrow> True
          | GetOk response \<Rightarrow> StatusCode response > 300 \<or> isl (Body response))"
  by (auto simp: GetJSON_v1_def split: get_result.splits sum.splits)

lemma GetJSON_v2_error_iff:
  "snd (snd (GetJSON_v2 http_Get url)) \<noteq> None
     \<longleftrightarrow> (case http_Get (rewrite url) of
            GetErr err response \<Rightarrow> True
          | GetOk response \<Rightarrow> StatusCode response > 300 \<or> isl (Body response))"
  by (auto simp: GetJSON_v2_def split: get_result.splits sum.splits)

lemma GetJSON_v1_response:
  "fst (snd (GetJSON_v1 http_Get url))
     = (case http_Get url of GetErr err response \<Rightarrow> response | GetOk response \<Rightarrow> Some response)"
  by (auto simp: GetJSON_v1_def split: get_result.splits sum.splits)

lemma GetJSON_v2_response:
  "fst (snd (GetJSON_v2 http_Get url))
     = (case http_Get (rewrite url) of
          GetErr err response \<Rightarrow> response | GetOk response \<Rightarrow> Some response)"
  by (auto simp: GetJSON_v2_def split: get_result.splits sum.splits)

text \<open>
  C6. The claim asks that a response with status code exactly 300 is a failure. The test
  in \<^verbatim>\<open>GetJSON\<close> is \<^verbatim>\<open>response.StatusCode > 300\<close>, so in both variants a response with
  status 300 and a body that decodes is returned as a success: the document, the response
  and no error.
\<close>

theorem GetJSON_status_300_succeeds:
  "GetJSON_v1 (\<lambda>u. answer 300 (JObject [])) ''https://example.com/.well-known/lnurlp/alice''
     = (JObject [], Some \<lparr>StatusCode = 300, Header = [], Body = Inr (JObject [])\<rparr>, None)
   \<and> GetJSON_v2 (\<lambda>u. answer 300 (JObject [])) ''https://example.com/.well-known/lnurlp/alice''
     = (JObject [], Some \<lparr>StatusCode = 300, Header = [], Body = Inr (JObject [])\<rparr>, None)"
  by (simp add: GetJSON_v1_def GetJSON_v2_def answer_def)

section \<open>Properties of the handler of /lightning-address-details\<close>

text \<open>
  When the lnurlp upstream answers with a status below 300, the second variant replies
  200, copies the \<^verbatim>\<open>Cache-Control\<close> header of that answer and fills each slot from its
  own fetch.
\<close>

lemma details_v2_lnurlp_answers:
  assumes "ToUrl ln' = Inr (lnurlpUrl, keysendUrl, nostrUrl)"
    and "http_Get (rewrite lnurlpUrl) = GetOk lr"
    and "StatusCode lr < 300"
  shows "lightning_address_details_v2 http_Get ln' =
     Inr \<lparr>Code = 200, CacheControl = Some (Header_Get (Header lr) ''Cache-Control''),
          Pretty = True,
          Payload = \<lparr>Lnurlp = slot (GetJSON_v2 http_Get lnurlpUrl),
                     Keysend = slot (GetJSON_v2 http_Get keysendUrl),
                     Nostr = slot (GetJSON_v2 http_Get nostrUrl)\<rparr>\<rparr>"
proof -
  from assms(2) have "fst (snd (GetJSON_v2 http_Get lnurlpUrl)) = Some lr"
    by (simp add: GetJSON_v2_def split: sum.splits)
  with assms(1,3) show ?thesis
    by (simp add: lightning_address_details_v2_def Let_def all_failed_def details_ok_def
        JSONPretty_def)
qed

text \<open>
  When all three upstreams answer and none of the status codes is exactly 300, the second
  variant follows the merge policy: it replies, with 200 as soon as one fetch returned no
  error and with 400 only when all three returned an error, and every slot is filled from
  its own fetch.
\<close>

lemma details_v2_with_responses:
  assumes "ToUrl ln' = Inr (lnurlpUrl, keysendUrl, nostrUrl)"
    and "http_Get (rewrite lnurlpUrl) = GetOk lr"
    and "http_Get (rewrite keysendUrl) = GetOk kr"
    and "http_Get (rewrite nostrUrl) = GetOk nr"
    and "StatusCode lr \<noteq> 300" and "StatusCode kr \<noteq> 300" and "StatusCode nr \<noteq> 300"
  shows "\<exists>r. lightning_address_details_v2 http_Get ln' = Inr r
     \<and> Payload r = \<lparr>Lnurlp = slot (GetJSON_v2 http_Get lnurlpUrl),
                    Keysend = slot (GetJSON_v2 http_Get keysendUrl),
                    Nostr = slot (GetJSON_v2 http_Get nostrUrl)\<rparr>
     \<and> (Code r = 200 \<or> Code r = 400)
     \<and> (snd (snd (GetJSON_v2 http_Get lnurlpUrl)) = None
          \<or> snd (snd (GetJSON_v2 http_Get keysendUrl)) = None
          \<or> snd (snd (GetJSON_v2 http_Get nostrUrl)) = None \<longrightarrow> Code r = 200)
     \<and> (Code r = 400 \<longrightarrow>
          snd (snd (GetJSON_v2 http_Get lnurlpUrl)) \<noteq> None
          \<and> snd (snd (GetJSON_v2 http_Get keysendUrl)) \<noteq> None
          \<and> snd (snd (GetJSON_v2 http_Get nostrUrl)) \<noteq> None)"
proof -
  have resp: "fst (snd (GetJSON_v2 http_Get lnurlpUrl)) = Some lr"
    "fst (snd (GetJSON_v2 http_Get keysendUrl)) = Some kr"
    "fst (snd (GetJSON_v2 http_Get nostrUrl)) = Some nr"
    using assms(2-4) by (simp_all add: GetJSON_v2_response)
  have err: "StatusCode lr \<ge> 300 \<Longrightarrow> snd (snd (GetJSON_v2 http_Get lnurlpUrl)) \<noteq> None"
    "StatusCode kr \<ge> 300 \<Longrightarrow> snd (snd (GetJSON_v2 http_Get keysendUrl)) \<noteq> None"
    "StatusCode nr \<ge> 300 \<Longrightarrow> snd (snd (GetJSON_v2 http_Get nostrUrl)) \<noteq> None"
    using assms(2-7) by (auto simp: GetJSON_v2_def split: sum.splits)
  show ?thesis
  proof (cases "StatusCode lr \<ge> 300 \<and> StatusCode kr \<ge> 300 \<and> StatusCode nr \<ge> 300")
    case True
    with err have "snd (snd (GetJSON_v2 http_Get lnurlpUrl)) \<noteq> None"
      "snd (snd (GetJSON_v2 http_Get keysendUrl)) \<noteq> None"
      "snd (snd (GetJSON_v2 http_Get nostrUrl)) \<noteq> None" by simp_all
    with True assms(1) resp show ?thesis
      by (simp add: lightning_address_details_v2_def Let_def all_failed_def JSON_def)
  next
    case False
    with assms(1) resp show ?thesis
      by (auto simp: lightning_address_details_v2_def Let_def all_failed_def details_ok_def
          JSONPretty_def)
  qed
qed

text \<open>
  When no upstream can be reached, the second variant replies 400 with three empty
  slots; \<^verbatim>\<open>main.go\<close> reads the status code of the missing lnurlp response for its error
  field and panics.
\<close>

lemma details_unreachable:
  assumes "ToUrl ln' = Inr urls"
  shows "lightning_address_details_v2 (\<lambda>u. GetErr e None) ln'
           = Inr (JSON 400 \<lparr>Lnurlp = JNull, Keysend = JNull, Nostr = JNull\<rparr>)"
    and "lightning_address_details_v1 (\<lambda>u. GetErr e None) ln' = Inl NilPointerDereference"
  using assms
  by (cases urls;
      simp add: lightning_address_details_v1_def lightning_address_details_v2_def Let_def
        GetJSON_v1_def GetJSON_v2_def all_failed_def slot_def)+

text \<open>
  C1. The claim asks for status 200 as soon as one fetch succeeded. When the lnurlp
  upstream answers 404, the keysend upstream cannot be reached and the nostr fetch
  succeeds, the test after the join reads \<^verbatim>\<open>keysendResponse.StatusCode\<close> through a nil
  response, and both variants panic instead of replying.
\<close>

theorem details_panics_without_keysend_response:
  "lightning_address_details_v1
     (\<lambda>u. if u = ''https://example.com/.well-known/lnurlp/alice'' then answer 404 JNull
          else if u = ''https://example.com/.well-known/keysend/alice'' then unreachable
          else answer 200 (JObject []))
     ''alice@example.com'' = Inl NilPointerDereference
   \<and> lightning_address_details_v2
     (\<lambda>u. if u = ''https://example.com/.well-known/lnurlp/alice'' then answer 404 JNull
          else if u = ''https://example.com/.well-known/keysend/alice'' then unreachable
          else answer 200 (JObject []))
     ''alice@example.com'' = Inl NilPointerDereference"
  by code_simp

text \<open>
  C2. The claim asks for status 200 without a \<^verbatim>\<open>Cache-Control\<close> header when the lnurlp
  fetch produced no response and another fetch succeeded. There the first disjunct of the
  test is false, the second one reads \<^verbatim>\<open>lnurlpResponse.StatusCode\<close> through the nil
  response, and both variants panic.
\<close>

theorem details_panics_without_lnurlp_response:
  "lightning_address_details_v1
     (\<lambda>u. if u = ''https://example.com/.well-known/lnurlp/alice'' then unreachable
          else answer 200 (JObject []))
     ''alice@example.com'' = Inl NilPointerDereference
   \<and> lightning_address_details_v2
     (\<lambda>u. if u = ''https://example.com/.well-known/lnurlp/alice'' then unreachable
          else answer 200 (JObject []))
     ''alice@example.com'' = Inl NilPointerDereference"
  by code_simp

section \<open>Properties of the handler of /generate-invoice\<close>

text \<open>
  Whenever the invoice response has a status above 300, the status code of the reply is
  that of the lnurlp response.
\<close>

lemma invoice_reply_stale_status:
  "StatusCode ir > 300 \<Longrightarrow>
     Code (invoice_reply lr (doc, Some ir, err)) = StatusCode lr"
  by (simp add: invoice_reply_def JSONPretty_def)

text \<open>
  C3. The claim asks for the status code of the invoice fetch. When the lnurlp fetch
  succeeds with 200 and the callback answers 404, both variants reply with status 200,
  the status of the lnurlp response, and an empty invoice.
\<close>

theorem invoice_failure_reports_lnurlp_status:
  "generate_invoice_v1
     (\<lambda>u. if u = ''https://example.com/.well-known/lnurlp/alice''
          then answer 200 (JObject [(''callback'', JString ''https://pay.example/cb'')])
          else answer 404 JNull)
     [(''ln'', [''alice@example.com'']), (''amount'', [''1000''])]
     = Inr \<lparr>Code = 200, CacheControl = None, Pretty = True, Payload = \<lparr>Invoice = JNull\<rparr>\<rparr>
   \<and> generate_invoice_v2
     (\<lambda>u. if u = ''https://example.com/.well-known/lnurlp/alice''
          then answer 200 (JObject [(''callback'', JString ''https://pay.example/cb'')])
          else answer 404 JNull)
     [(''ln'', [''alice@example.com'']), (''amount'', [''1000''])]
     = Inr \<lparr>Code = 200, CacheControl = None, Pretty = True, Payload = \<lparr>Invoice = JNull\<rparr>\<rparr>"
  by code_simp

text \<open>
  C5. The claim asks for a 400 reply when the lnurlp document is not an object or its
  callback is not a string. For a document that is an array the assertion
  \<^verbatim>\<open>lnurlp.(map[string]interface{})\<close> panics, and for a callback that is a number the
  assertion \<^verbatim>\<open>callback.(string)\<close> panics, in both variants.
\<close>

theorem generate_invoice_panics:
  "generate_invoice_v1 (\<lambda>u. answer 200 (JArray [])) [(''ln'', [''alice@example.com''])]
     = Inl InterfaceConversion
   \<and> generate_invoice_v2 (\<lambda>u. answer 200 (JArray [])) [(''ln'', [''alice@example.com''])]
     = Inl InterfaceConversion
   \<and> generate_invoice_v1 (\<lambda>u. answer 200 (JObject [(''callback'', JNumber 5)]))
       [(''ln'', [''alice@example.com''])]
     = Inl InterfaceConversion
   \<and> generate_invoice_v2 (\<lambda>u. answer 200 (JObject [(''callback'', JNumber 5)]))
       [(''ln'', [''alice@example.com''])]
     = Inl InterfaceConversion"
  by code_simp

section \<open>Properties of the URL of the invoice fetch\<close>

subsection \<open>Reading and adding values\<close>

lemma Values_index_Del:
  "Values_index (Values_Del v key) k = (if k = key then [] else Values_index v k)"
  by (simp add: Values_index_def Values_Del_def delete_conv')

lemma Values_index_Add:
  "Values_index (Values_Add v key val) k
     = (if k = key then Values_index v k @ [val] else Values_index v k)"
  by (simp add: Values_index_def Values_Add_def update_conv')

lemma Values_index_fold_Add:
  "Values_index (fold (\<lambda>x m. Values_Add m key x) vals v) k
     = (if k = key then Values_index v k @ vals else Values_index v k)"
  by (induction vals arbitrary: v) (simp_all add: Values_index_Add)

lemma Values_index_merge:
  "Values_index (merge_values values params) k
     = Values_index values k @ concat (map snd (filter (\<lambda>kv. fst kv = k) params))"
  unfolding merge_values_def
  by (induction params arbitrary: "values") (simp_all add: Values_index_fold_Add)

lemma concat_filter_distinct:
  "distinct (map fst params) \<Longrightarrow>
     concat (map snd (filter (\<lambda>kv. fst kv = k) params)) = Values_index params k"
proof (induction params)
  case Nil
  show ?case by (simp add: Values_index_def)
next
  case (Cons p ps)
  show ?case
  proof (cases "fst p = k")
    case True
    with Cons.prems have "k \<notin> fst ` set ps" by auto
    then have "filter (\<lambda>kv. fst kv = k) ps = []"
      by (auto simp: filter_empty_conv)
    with True show ?thesis by (cases p) (simp add: Values_index_def)
  next
    case False
    with Cons show ?thesis by (cases p) (simp add: Values_index_def)
  qed
qed

text \<open>
  The merge of the second variant appends: under every name, the values of the callback's
  own query come first and the values of the caller follow.
\<close>

lemma Values_index_merge_distinct:
  "distinct (map fst params) \<Longrightarrow>
     Values_index (merge_values values params) k = Values_index values k @ Values_index params k"
  by (simp add: Values_index_merge concat_filter_distinct)

lemma Values_index_not_key: "k \<notin> fst ` set v \<Longrightarrow> Values_index v k = []"
  using map_of_eq_None_iff [of v k] by (simp add: Values_index_def)

lemma filter_pairs_of_keys:
  "distinct ks \<Longrightarrow>
     map snd (filter (\<lambda>p. fst p = k) (concat (map (\<lambda>k'. map (\<lambda>x. (k', x)) (f k')) ks)))
       = (if k \<in> set ks then f k else [])"
proof (induction ks)
  case Nil
  show ?case by simp
next
  case (Cons a ks)
  have same: "map snd (filter (\<lambda>p. fst p = k) (map (\<lambda>x. (a, x)) (f a))) = (if a = k then f a else [])"
    by (induction "f a") (auto simp: filter_empty_conv o_def)
  from Cons show ?case by (auto simp: same)
qed

lemma Values_pairs_index:
  "map snd (filter (\<lambda>p. fst p = k) (Values_pairs v)) = Values_index v k"
  unfolding Values_pairs_def
  by (subst filter_pairs_of_keys) (auto simp: Values_index_not_key)

lemma Values_index_fold_pairs:
  "Values_index (fold (\<lambda>p m. Values_Add m (fst p) (snd p)) pairs v) k
     = Values_index v k @ map snd (filter (\<lambda>p. fst p = k) pairs)"
  by (induction pairs arbitrary: v) (simp_all add: Values_index_Add)

subsection \<open>Encoding a query and parsing it again\<close>

lemma unhex_upperhex: "n < 16 \<Longrightarrow> unhex (upperhex n) = Some n"
proof -
  have "\<forall>n \<in> set [0..<16]. unhex (upperhex n) = Some n" by code_simp
  then show "n < 16 \<Longrightarrow> unhex (upperhex n) = Some n" by simp
qed

lemma unhex_special:
  "unhex (CHR ''&'') = None" "unhex (CHR '';'') = None" "unhex (CHR ''='') = None"
  by (simp_all add: unhex_def)

lemma unreserved_special:
  "\<not> unreserved (CHR ''&'')" "\<not> unreserved (CHR '';'')" "\<not> unreserved (CHR ''='')"
  "\<not> unreserved (CHR ''%'')" "\<not> unreserved (CHR ''+'')"
  by (simp_all add: unreserved_def)

lemma QueryEscape_chars:
  "c \<in> set (QueryEscape s) \<Longrightarrow> c \<noteq> CHR ''&'' \<and> c \<noteq> CHR '';'' \<and> c \<noteq> CHR ''=''"
proof (induction s)
  case Nil
  then show ?case by simp
next
  case (Cons a s)
  have hi: "(of_char a :: nat) div 16 < 16" and lo: "(of_char a :: nat) mod 16 < 16"
    using nat_of_char_less_256 [of a] by (simp_all add: less_mult_imp_div_less)
  from Cons show ?case
    using unhex_upperhex [OF hi] unhex_upperhex [OF lo] unhex_special unreserved_special
    by (auto split: if_splits)
qed

lemma QueryUnescape_QueryEscape: "QueryUnescape (QueryEscape s) = Some s"
proof (induction s)
  case Nil
  show ?case by simp
next
  case (Cons a s)
  have hi: "(of_char a :: nat) div 16 < 16" and lo: "(of_char a :: nat) mod 16 < 16"
    using nat_of_char_less_256 [of a] by (simp_all add: less_mult_imp_div_less)
  have joined: "char_of ((of_char a :: nat) div 16 * 16 + of_char a mod 16) = a"
    by simp
  show ?case
  proof (cases "unreserved a")
    case True
    then have "a \<noteq> CHR ''%''" "a \<noteq> CHR ''+''" using unreserved_special by auto
    with True Cons show ?thesis by simp
  next
    case False
    with Cons show ?thesis
      using unhex_upperhex [OF hi] unhex_upperhex [OF lo] joined by simp
  qed
qed

lemma Split_Join:
  "pieces \<noteq> [] \<Longrightarrow> (\<And>p. p \<in> set pieces \<Longrightarrow> sep \<notin> set p) \<Longrightarrow>
     Split (Join pieces [sep]) sep = pieces"
proof (induction pieces "[sep]" rule: Join.induct)
  case 1
  then show ?case by simp
next
  case (2 x)
  then show ?case by (simp add: Split_no_sep)
next
  case (3 x y ys)
  then have "Split (Join (y # ys) [sep]) sep = y # ys" by simp
  moreover from 3 have "sep \<notin> set x" by simp
  ultimately show ?case by (simp add: Split_append)
qed

lemma Cut_append: "sep \<notin> set a \<Longrightarrow> Cut (a @ sep # b) sep = (a, b)"
  by (induction a) (auto simp: Cut_def)

lemma QueryEscape_no_separator:
  "CHR ''&'' \<notin> set (QueryEscape s)" "CHR '';'' \<notin> set (QueryEscape s)"
  "CHR ''='' \<notin> set (QueryEscape s)"
  using QueryEscape_chars [of _ s] by blast+

lemma parse_pair_escaped:
  "parse_pair (QueryEscape k @ CHR ''='' # QueryEscape x) = Some (k, x)"
  using Cut_append [OF QueryEscape_no_separator(3), of k "QueryEscape x"]
  by (simp add: parse_pair_def QueryUnescape_QueryEscape QueryEscape_no_separator)

lemma fold_parse_escaped:
  "fold (\<lambda>piece m. case parse_pair piece of
                      None \<Rightarrow> m
                    | Some (key, val) \<Rightarrow> Values_Add m key val)
        (map (\<lambda>kx. QueryEscape (fst kx) @ CHR ''='' # QueryEscape (snd kx)) pairs) m
     = fold (\<lambda>p m. Values_Add m (fst p) (snd p)) pairs m"
  by (induction pairs arbitrary: m) (simp_all add: parse_pair_escaped case_prod_beta)

lemma ParseQuery_Encode:
  "ParseQuery (Encode v) = fold (\<lambda>p m. Values_Add m (fst p) (snd p)) (Values_pairs v) []"
proof (cases "Values_pairs v = []")
  case True
  then show ?thesis by (simp add: ParseQuery_def Encode_def parse_pair_def)
next
  case False
  have "Split (Join (map (\<lambda>kx. QueryEscape (fst kx) @ ''='' @ QueryEscape (snd kx))
                       (Values_pairs v)) ''&'') (CHR ''&'')
          = map (\<lambda>kx. QueryEscape (fst kx) @ ''='' @ QueryEscape (snd kx)) (Values_pairs v)"
  proof (rule Split_Join)
    from False show "map (\<lambda>kx. QueryEscape (fst kx) @ ''='' @ QueryEscape (snd kx))
                       (Values_pairs v) \<noteq> []" by simp
  next
    fix p
    assume "p \<in> set (map (\<lambda>kx. QueryEscape (fst kx) @ ''='' @ QueryEscape (snd kx))
                       (Values_pairs v))"
    then show "CHR ''&'' \<notin> set p" by (auto simp: QueryEscape_no_separator)
  qed
  then show ?thesis by (simp add: ParseQuery_def Encode_def fold_parse_escaped)
qed

text \<open>
  A receiver that parses an encoded query reads back, under every name, the values that
  were encoded.
\<close>

lemma Values_index_ParseQuery_Encode:
  "Values_index (ParseQuery (Encode v)) k = Values_index v k"
  by (simp add: ParseQuery_Encode Values_index_fold_pairs Values_pairs_index)
     (simp add: Values_index_def)

subsection \<open>The merge of the caller's parameters\<close>

text \<open>
  C4. The claim asks that the caller's parameters are merged into the query of the
  callback. \<^verbatim>\<open>main.go\<close> puts a question mark and the encoded parameters behind the
  callback as it is: for the callback \<^verbatim>\<open>https://pay.example/cb?amount=1000\<close> and the
  parameter \<^verbatim>\<open>comment=hi\<close> the URL fetched has two question marks, its query reads as
  the single parameter \<^verbatim>\<open>amount\<close> with the value \<^verbatim>\<open>1000?comment=hi\<close>, and an upstream
  that serves the invoice at the merged URL is not reached.
\<close>

theorem invoiceUrl_v1_not_merged:
  "invoiceUrl_v1 ''https://pay.example/cb?amount=1000''
       [(''ln'', [''alice@example.com'']), (''comment'', [''hi''])]
     = ''https://pay.example/cb?amount=1000?comment=hi''
   \<and> map_option (\<lambda>u. ParseQuery (RawQuery u))
       (url_Parse (invoiceUrl_v1 ''https://pay.example/cb?amount=1000''
          [(''ln'', [''alice@example.com'']), (''comment'', [''hi''])]))
     = Some [(''amount'', [''1000?comment=hi''])]
   \<and> generate_invoice_v1
       (\<lambda>u. if u = ''https://example.com/.well-known/lnurlp/alice''
            then answer 200 (JObject [(''callback'', JString ''https://pay.example/cb?amount=1000'')])
            else if u = ''https://pay.example/cb?amount=1000&comment=hi''
            then answer 200 (JObject [(''pr'', JString ''lnbc1'')])
            else unreachable)
       [(''ln'', [''alice@example.com'']), (''comment'', [''hi''])]
     = Inr \<lparr>Code = 400, CacheControl = None, Pretty = False, Payload = \<lparr>Invoice = JNull\<rparr>\<rparr>"
  by code_simp

text \<open>
  The second variant does merge: on the same input it fetches the URL the claim names.
\<close>

lemma invoiceUrl_v2_merged:
  "invoiceUrl_v2 ''https://pay.example/cb?amount=1000''
       [(''ln'', [''alice@example.com'']), (''comment'', [''hi''])]
     = Some ''https://pay.example/cb?amount=1000&comment=hi''
   \<and> generate_invoice_v2
       (\<lambda>u. if u = ''https://example.com/.well-known/lnurlp/alice''
            then answer 200 (JObject [(''callback'', JString ''https://pay.example/cb?amount=1000'')])
            else if u = ''https://pay.example/cb?amount=1000&comment=hi''
            then answer 200 (JObject [(''pr'', JString ''lnbc1'')])
            else unreachable)
       [(''ln'', [''alice@example.com'']), (''comment'', [''hi''])]
     = Inr \<lparr>Code = 200, CacheControl = None, Pretty = True,
            Payload = \<lparr>Invoice = JObject [(''pr'', JString ''lnbc1'')]\<rparr>\<rparr>"
  by code_simp

text \<open>
  C9. The \<^verbatim>\<open>ln\<close> parameter of the inbound request is not forwarded. In \<^verbatim>\<open>main.go\<close>
  the URL fetched is the callback, a question mark and a query string in which a receiver
  finds no value under \<^verbatim>\<open>ln\<close>. In the second variant the URL fetched is the parsed
  callback with a new query string, in which a receiver finds under \<^verbatim>\<open>ln\<close> exactly the
  values the callback's own query had there. In both, the URL is the one that the same
  request without its \<^verbatim>\<open>ln\<close> parameter gives.
\<close>

theorem ln_never_forwarded:
  "Values_index (ParseQuery (Encode (Values_Del query ''ln''))) ''ln'' = []
   \<and> invoiceUrl_v1 callback query = callback @ ''?'' @ Encode (Values_Del query ''ln'')
   \<and> invoiceUrl_v1 callback query = invoiceUrl_v1 callback (Values_Del query ''ln'')
   \<and> invoiceUrl_v2 callback query = invoiceUrl_v2 callback (Values_Del query ''ln'')
   \<and> (case url_Parse callback of
        None \<Rightarrow> invoiceUrl_v2 callback query = None
      | Some u \<Rightarrow>
          (let rawQuery = Encode (merge_values (ParseQuery (RawQuery u)) (Values_Del query ''ln''))
           in invoiceUrl_v2 callback query = Some (URL_String (u\<lparr>RawQuery := rawQuery\<rparr>))
            \<and> Values_index (ParseQuery rawQuery) ''ln''
                = Values_index (ParseQuery (RawQuery u)) ''ln''))"
proof -
  have idem: "Values_Del (Values_Del query ''ln'') ''ln'' = Values_Del query ''ln''"
    by (simp add: Values_Del_def delete_idem)
  have none: "concat (map snd (filter (\<lambda>kv. fst kv = ''ln'') (Values_Del query ''ln''))) = []"
    by (auto simp: Values_Del_def AList.delete_eq)
  have a: "Values_index (ParseQuery (Encode (Values_Del query ''ln''))) ''ln'' = []"
    by (simp add: Values_index_ParseQuery_Encode Values_index_Del)
  have b: "invoiceUrl_v1 callback query = callback @ ''?'' @ Encode (Values_Del query ''ln'')"
    by (simp add: invoiceUrl_v1_def)
  have c: "invoiceUrl_v1 callback query = invoiceUrl_v1 callback (Values_Del query ''ln'')"
    by (simp add: invoiceUrl_v1_def idem)
  have d: "invoiceUrl_v2 callback query = invoiceUrl_v2 callback (Values_Del query ''ln'')"
    by (simp add: invoiceUrl_v2_def idem)
  have e: "case url_Parse callback of
        None \<Rightarrow> invoiceUrl_v2 callback query = None
      | Some u \<Rightarrow>
          (let rawQuery = Encode (merge_values (ParseQuery (RawQuery u)) (Values_Del query ''ln''))
           in invoiceUrl_v2 callback query = Some (URL_String (u\<lparr>RawQuery := rawQuery\<rparr>))
            \<and> Values_index (ParseQuery rawQuery) ''ln''
                = Values_index (ParseQuery (RawQuery u)) ''ln'')"
    by (simp add: invoiceUrl_v2_def Values_index_ParseQuery_Encode Values_index_merge none
             Let_def split: option.split)
  from a b c d e show ?thesis by blast
qed

text \<open>
  An inbound request with \<^verbatim>\<open>ln\<close> and \<^verbatim>\<open>comment\<close>, and a callback that has an
  \<^verbatim>\<open>ln\<close> parameter of its own: only the callback's value is found in the URL fetched.
\<close>

theorem ln_never_forwarded_witness:
  "Values_index
     (ParseQuery (Encode (Values_Del [(''ln'', [''alice@example.com'']), (''comment'', [''hi''])]
        ''ln''))) ''ln'' = []
   \<and> invoiceUrl_v1 ''https://pay.example/cb?ln=own''
        [(''ln'', [''alice@example.com'']), (''comment'', [''hi''])]
     = ''https://pay.example/cb?ln=own?comment=hi''
   \<and> invoiceUrl_v2 ''https://pay.example/cb?ln=own''
        [(''ln'', [''alice@example.com'']), (''comment'', [''hi''])]
     = Some ''https://pay.example/cb?comment=hi&ln=own''
   \<and> Values_index (ParseQuery ''comment=hi&ln=own'') ''ln'' = [''own'']"
proof -
  have enc: "Encode (Values_Del [(''ln'', [''alice@example.com'']), (''comment'', [''hi''])] ''ln'')
      = ''comment=hi''"
    by code_simp
  have parsed: "url_Parse ''https://pay.example/cb?ln=own''
      = Some \<lparr>Prefix = ''https://pay.example/cb'', ForceQuery = False, RawQuery = ''ln=own'',
               Fragment = []\<rparr>"
    by code_simp
  have merged: "Encode (merge_values (ParseQuery ''ln=own'')
        (Values_Del [(''ln'', [''alice@example.com'']), (''comment'', [''hi''])] ''ln''))
      = ''comment=hi&ln=own''"
    by code_simp
  have own: "Values_index (ParseQuery ''ln=own'') ''ln'' = [''own'']"
    by code_simp
  note inst = ln_never_forwarded [of "[(''ln'', [''alice@example.com'']), (''comment'', [''hi''])]"
      "''https://pay.example/cb?ln=own''"]
  from inst have a: "Values_index
     (ParseQuery (Encode (Values_Del [(''ln'', [''alice@example.com'']), (''comment'', [''hi''])]
        ''ln''))) ''ln'' = []"
    by (rule conjunct1)
  from inst have b: "invoiceUrl_v1 ''https://pay.example/cb?ln=own''
        [(''ln'', [''alice@example.com'']), (''comment'', [''hi''])]
     = ''https://pay.example/cb?ln=own'' @ ''?''
       @ Encode (Values_Del [(''ln'', [''alice@example.com'']), (''comment'', [''hi''])] ''ln'')"
    by blast
  from inst have "case url_Parse ''https://pay.example/cb?ln=own'' of
        None \<Rightarrow> invoiceUrl_v2 ''https://pay.example/cb?ln=own''
                  [(''ln'', [''alice@example.com'']), (''comment'', [''hi''])] = None
      | Some u \<Rightarrow>
          (let rawQuery = Encode (merge_values (ParseQuery (RawQuery u))
                 (Values_Del [(''ln'', [''alice@example.com'']), (''comment'', [''hi''])] ''ln''))
           in invoiceUrl_v2 ''https://pay.example/cb?ln=own''
                [(''ln'', [''alice@example.com'']), (''comment'', [''hi''])]
                = Some (URL_String (u\<lparr>RawQuery := rawQuery\<rparr>))
            \<and> Values_index (ParseQuery rawQuery) ''ln''
                = Values_index (ParseQuery (RawQuery u)) ''ln'')"
    by blast
  then have c: "invoiceUrl_v2 ''https://pay.example/cb?ln=own''
        [(''ln'', [''alice@example.com'']), (''comment'', [''hi''])]
        = Some ''https://pay.example/cb?comment=hi&ln=own''"
    and d: "Values_index (ParseQuery ''comment=hi&ln=own'') ''ln'' = [''own'']"
    by (simp_all add: parsed merged own Let_def URL_String_def)
  from a b c d show ?thesis by (simp add: enc)
qed

section \<open>The two variants compared\<close>

text \<open>
  \<^verbatim>\<open>GetJSON\<close> of the second variant returns what the one of \<^verbatim>\<open>main.go\<close> returns on
  the rewritten URL, up to the text of the error.
\<close>

lemma GetJSON_variants:
  "fst (GetJSON_v2 g url) = fst (GetJSON_v1 (\<lambda>u. g (rewrite u)) url)"
  "fst (snd (GetJSON_v2 g url)) = fst (snd (GetJSON_v1 (\<lambda>u. g (rewrite u)) url))"
  "snd (snd (GetJSON_v2 g url)) = None \<longleftrightarrow> snd (snd (GetJSON_v1 (\<lambda>u. g (rewrite u)) url)) = None"
  by (auto simp: GetJSON_v1_def GetJSON_v2_def split: get_result.splits sum.splits)

text \<open>
  The handlers of generate-invoice run the same steps up to the invoice fetch and after
  it: they give the same result whenever the two invoice fetches do.
\<close>

lemma generate_invoice_variants:
  assumes "\<And>lnurlpUrl keysendUrl nostrUrl lr m s.
      \<lbrakk>ToUrl (Values_Get query ''ln'') = Inr (lnurlpUrl, keysendUrl, nostrUrl);
       g (rewrite lnurlpUrl) = GetOk lr; StatusCode lr \<le> 300;
       Body lr = Inr (JObject m); index m ''callback'' = JString s\<rbrakk>
      \<Longrightarrow> \<exists>u. invoiceUrl_v2 s query = Some u
              \<and> g (rewrite u) = g (rewrite (invoiceUrl_v1 s query))"
  shows "generate_invoice_v2 g query = generate_invoice_v1 (\<lambda>u. g (rewrite u)) query"
proof (cases "ToUrl (Values_Get query ''ln'')")
  case (Inl e)
  then show ?thesis by (simp add: generate_invoice_v1_def generate_invoice_v2_def Let_def)
next
  case (Inr urls)
  then obtain lu ku nu where urls: "ToUrl (Values_Get query ''ln'') = Inr (lu, ku, nu)"
    by (cases urls) auto
  show ?thesis
  proof (cases "g (rewrite lu)")
    case (GetErr e r)
    then show ?thesis
      by (auto simp: generate_invoice_v1_def generate_invoice_v2_def Let_def urls GetJSON_v1_def
          GetJSON_v2_def callback_of_def split: option.splits)
  next
    case (GetOk lr)
    show ?thesis
    proof (cases "StatusCode lr > 300")
      case True
      with GetOk show ?thesis
        by (simp add: generate_invoice_v1_def generate_invoice_v2_def Let_def urls GetJSON_v1_def
            GetJSON_v2_def)
    next
      case False
      show ?thesis
      proof (cases "Body lr")
        case (Inl e)
        with GetOk False show ?thesis
          by (simp add: generate_invoice_v1_def generate_invoice_v2_def Let_def urls GetJSON_v1_def
              GetJSON_v2_def callback_of_def)
      next
        case (Inr doc)
        show ?thesis
        proof (cases "\<exists>m s. doc = JObject m \<and> index m ''callback'' = JString s")
          case True
          then obtain m s where doc: "doc = JObject m" and cb: "index m ''callback'' = JString s"
            by blast
          from assms [OF urls GetOk _ _ cb] False Inr doc
          obtain u where u: "invoiceUrl_v2 s query = Some u"
            "g (rewrite u) = g (rewrite (invoiceUrl_v1 s query))" by auto
          have "GetJSON_v2 g u = GetJSON_v1 (\<lambda>u. g (rewrite u)) (invoiceUrl_v1 s query)
              \<or> (\<exists>d r e e'. GetJSON_v2 g u = (d, r, Some e)
                    \<and> GetJSON_v1 (\<lambda>u. g (rewrite u)) (invoiceUrl_v1 s query) = (d, r, Some e'))"
            using u(2)
            by (auto simp: GetJSON_v1_def GetJSON_v2_def split: get_result.splits sum.splits)
          then have "invoice_reply lr (GetJSON_v2 g u)
              = invoice_reply lr (GetJSON_v1 (\<lambda>u. g (rewrite u)) (invoiceUrl_v1 s query))"
            by (auto simp: invoice_reply_def)
          with GetOk False Inr doc cb u(1) show ?thesis
            by (simp add: generate_invoice_v1_def generate_invoice_v2_def Let_def urls GetJSON_v1_def
                GetJSON_v2_def callback_of_def as_string_def)
        next
          case no: False
          with GetOk False Inr show ?thesis
            by (cases doc; cases "index (case doc of JObject m \<Rightarrow> m | _ \<Rightarrow> []) ''callback''")
               (auto simp: generate_invoice_v1_def generate_invoice_v2_def Let_def urls GetJSON_v1_def
                GetJSON_v2_def callback_of_def as_string_def)
        qed
      qed
    qed
  qed
qed

subsection \<open>The invoice URL for a plain callback\<close>

lemma host_char_plain:
  "host_char c \<Longrightarrow> c \<noteq> CHR ''#'' \<and> c \<noteq> CHR ''?'' \<and> \<not> ctl_byte c"
  by (auto simp: host_char_def ctl_byte_def Let_def)

lemma path_char_plain:
  "path_char c \<Longrightarrow> c \<noteq> CHR ''#'' \<and> c \<noteq> CHR ''?'' \<and> \<not> ctl_byte c"
  by (auto simp: path_char_def unreserved_def ctl_byte_def Let_def)

lemma plain_callback_chars:
  assumes "plain_callback s" and "c \<in> set s"
  shows "c \<noteq> CHR ''#'' \<and> c \<noteq> CHR ''?'' \<and> \<not> ctl_byte c"
proof -
  let ?rest = "drop 8 s"
  let ?host = "takeWhile (\<lambda>c. c \<noteq> CHR ''/'') ?rest"
  let ?path = "dropWhile (\<lambda>c. c \<noteq> CHR ''/'') ?rest"
  from assms(1) have pre: "take 8 s = ''https://''" and h: "list_all host_char ?host"
    and p: "list_all path_char ?path"
    by (simp_all add: plain_callback_def Let_def)
  have "s = take 8 s @ ?host @ ?path" by simp
  with assms(2) have "c \<in> set (take 8 s) \<or> c \<in> set ?host \<or> c \<in> set ?path"
    by (metis Un_iff set_append)
  then show ?thesis
  proof (elim disjE)
    assume "c \<in> set (take 8 s)"
    with pre have "c \<in> set ''https://''" by simp
    then show ?thesis by (auto simp: ctl_byte_def)
  next
    assume "c \<in> set ?host"
    with h show ?thesis by (auto simp: list_all_iff dest: host_char_plain)
  next
    assume "c \<in> set ?path"
    with p show ?thesis by (auto simp: list_all_iff dest: path_char_plain)
  qed
qed

lemma Cut_absent: "sep \<notin> set s \<Longrightarrow> Cut s sep = (s, [])"
  by (induction s) (auto simp: Cut_def)

lemma url_Parse_plain:
  assumes "plain_callback s"
  shows "url_Parse s = Some \<lparr>Prefix = s, ForceQuery = False, RawQuery = [], Fragment = []\<rparr>"
proof -
  from plain_callback_chars [OF assms]
  have hash: "CHR ''#'' \<notin> set s" and quest: "CHR ''?'' \<notin> set s"
    and ctl: "\<not> list_ex ctl_byte s"
    by (auto simp: list_ex_iff)
  from quest have "\<not> suffix ''?'' s" by (auto simp: suffix_def)
  with hash quest ctl show ?thesis
    by (simp add: url_Parse_def Cut_absent)
qed

lemma concat_map_filter_empty:
  "(\<And>z. z \<in> set zs \<Longrightarrow> \<not> P z \<Longrightarrow> f z = []) \<Longrightarrow>
     concat (map f (filter P zs)) = concat (map f zs)"
  by (induction zs) auto

lemma concat_map_sorted_keys:
  fixes f :: "string \<Rightarrow> 'a list"
  assumes sub: "set ys \<subseteq> set xs"
    and empty: "\<And>k. k \<in> set xs \<Longrightarrow> k \<notin> set ys \<Longrightarrow> f k = []"
  shows "concat (map f (sort (remdups ys))) = concat (map f (sort (remdups xs)))"
proof -
  have "sort (remdups ys) = filter (\<lambda>k. k \<in> set ys) (sort (remdups xs))"
  proof (rule sorted_distinct_set_unique)
    show "sorted (filter (\<lambda>k. k \<in> set ys) (sort (remdups xs)))"
      using sorted_filter [of "\<lambda>x. x" "sort (remdups xs)"] by simp
    show "set (sort (remdups ys)) = set (filter (\<lambda>k. k \<in> set ys) (sort (remdups xs)))"
      using sub by auto
  qed simp_all
  moreover have "concat (map f (filter (\<lambda>k. k \<in> set ys) (sort (remdups xs))))
      = concat (map f (sort (remdups xs)))"
    by (rule concat_map_filter_empty) (simp add: empty)
  ultimately show ?thesis by simp
qed

lemma keys_fold_Add:
  "fst ` set (fold (\<lambda>x m. Values_Add m key x) vals v) \<subseteq> insert key (fst ` set v)"
proof (induction vals arbitrary: v)
  case Nil
  show ?case by auto
next
  case (Cons x vals)
  have "fst ` set (Values_Add v key x) = insert key (fst ` set v)"
    by (simp add: Values_Add_def dom_update)
  with Cons [of "Values_Add v key x"] show ?case by simp
qed

lemma keys_merge_values:
  "fst ` set (merge_values values params) \<subseteq> fst ` set values \<union> fst ` set params"
  unfolding merge_values_def
proof (induction params arbitrary: "values")
  case Nil
  show ?case by simp
next
  case (Cons kv params)
  from Cons [of "fold (\<lambda>v vs'. Values_Add vs' (fst kv) v) (snd kv) values"]
    keys_fold_Add [of "fst kv" "snd kv" "values"]
  show ?case by auto
qed

lemma Values_pairs_merge_empty:
  assumes "distinct (map fst params)"
  shows "Values_pairs (merge_values [] params) = Values_pairs params"
proof -
  have idx: "Values_index (merge_values [] params) k = Values_index params k" for k
    using Values_index_merge_distinct [OF assms, of "[]" k] by (simp add: Values_index_def)
  have "concat (map (\<lambda>k. map (\<lambda>x. (k, x)) (Values_index params k))
                  (sort (remdups (map fst (merge_values [] params)))))
      = concat (map (\<lambda>k. map (\<lambda>x. (k, x)) (Values_index params k))
                  (sort (remdups (map fst params))))"
  proof (rule concat_map_sorted_keys)
    show "set (map fst (merge_values [] params)) \<subseteq> set (map fst params)"
      using keys_merge_values [of "[]" params] by simp
  next
    fix k
    assume "k \<notin> set (map fst (merge_values [] params))"
    then have "Values_index (merge_values [] params) k = []"
      by (simp add: Values_index_not_key)
    then show "map (\<lambda>x. (k, x)) (Values_index params k) = []" by (simp add: idx)
  qed
  then show ?thesis by (simp add: Values_pairs_def idx)
qed

lemma Join_nonempty: "xs \<noteq> [] \<Longrightarrow> (\<And>x. x \<in> set xs \<Longrightarrow> x \<noteq> []) \<Longrightarrow> Join xs sep \<noteq> []"
  by (induction xs sep rule: Join.induct) auto

lemma Encode_nonempty: "Values_pairs v \<noteq> [] \<Longrightarrow> Encode v \<noteq> []"
  unfolding Encode_def by (rule Join_nonempty) auto

text \<open>
  For a plain callback and a request whose parameter names are distinct and that has a
  value under a name other than \<^verbatim>\<open>ln\<close>, both variants build the same invoice URL.
\<close>

lemma invoiceUrl_plain:
  assumes "plain_callback s" and "distinct (map fst query)"
    and "Values_pairs (Values_Del query ''ln'') \<noteq> []"
  shows "invoiceUrl_v2 s query = Some (invoiceUrl_v1 s query)"
proof -
  from assms(2) have d: "distinct (map fst (Values_Del query ''ln''))"
    by (simp add: Values_Del_def distinct_delete)
  have enc: "Encode (merge_values [] (Values_Del query ''ln'')) = Encode (Values_Del query ''ln'')"
    by (simp add: Encode_def Values_pairs_merge_empty [OF d])
  from assms(3) have ne: "Encode (Values_Del query ''ln'') \<noteq> []" by (rule Encode_nonempty)
  have pq: "ParseQuery [] = []" by (simp add: ParseQuery_def parse_pair_def)
  show ?thesis
    by (simp add: invoiceUrl_v2_def invoiceUrl_v1_def url_Parse_plain [OF assms(1)] pq enc ne
        URL_String_def)
qed

subsection \<open>Where the variants agree and where they differ\<close>

text \<open>
  C10, as amended. Let \<^verbatim>\<open>main.go\<close> see the upstream through the rewrite of the second
  variant, so that both get the same answer to a fetch of the same URL. For a request to
  generate-invoice whose parameter names are distinct and that has a value under a name
  other than \<^verbatim>\<open>ln\<close>, the two handlers give the same result, reply or panic, provided
  that the callback, when one is reached, is a plain callback: both then fetch the same
  invoice URL. For an identifier that \<^verbatim>\<open>ToUrl\<close> rejects, the two handlers of
  lightning-address-details return before any fetch is started and reply 400 with three
  empty slots, \<^verbatim>\<open>main.go\<close> with its error field besides. Nothing is said of
  lightning-address-details for an identifier that is accepted: there the reply depends
  on how the goroutines are scheduled.
\<close>

theorem variants_agree:
  assumes plain: "\<And>lnurlpUrl keysendUrl nostrUrl lr m s.
      \<lbrakk>ToUrl (Values_Get query ''ln'') = Inr (lnurlpUrl, keysendUrl, nostrUrl);
       http_Get (rewrite lnurlpUrl) = GetOk lr; StatusCode lr \<le> 300;
       Body lr = Inr (JObject m); index m ''callback'' = JString s\<rbrakk>
      \<Longrightarrow> plain_callback s"
    and keys: "distinct (map fst query)"
    and param: "Values_pairs (Values_Del query ''ln'') \<noteq> []"
  shows "generate_invoice_v2 http_Get query
           = generate_invoice_v1 (\<lambda>u. http_Get (rewrite u)) query
       \<and> (\<forall>s. plain_callback s \<longrightarrow> invoiceUrl_v2 s query = Some (invoiceUrl_v1 s query))
       \<and> (isl (ToUrl ln') \<longrightarrow>
            lightning_address_details_v1 (\<lambda>u. http_Get (rewrite u)) ln'
              = Inr (JSON 400 \<lparr>Lnurlp = JNull, Keysend = JNull, Nostr = JNull,
                               Error = \<lparr>Status = 0, Message = []\<rparr>\<rparr>)
          \<and> lightning_address_details_v2 http_Get ln'
              = Inr (JSON 400 \<lparr>Lnurlp = JNull, Keysend = JNull, Nostr = JNull\<rparr>))"
proof -
  have urls: "invoiceUrl_v2 s query = Some (invoiceUrl_v1 s query)" if "plain_callback s" for s
    using that keys param by (rule invoiceUrl_plain)
  have "generate_invoice_v2 http_Get query
      = generate_invoice_v1 (\<lambda>u. http_Get (rewrite u)) query"
  proof (rule generate_invoice_variants)
    fix lnurlpUrl keysendUrl nostrUrl lr m s
    assume "ToUrl (Values_Get query ''ln'') = Inr (lnurlpUrl, keysendUrl, nostrUrl)"
      and "http_Get (rewrite lnurlpUrl) = GetOk lr" and "StatusCode lr \<le> 300"
      and "Body lr = Inr (JObject m)" and "index m ''callback'' = JString s"
    then have "plain_callback s" by (rule plain)
    then have "invoiceUrl_v2 s query = Some (invoiceUrl_v1 s query)" by (rule urls)
    then show "\<exists>u. invoiceUrl_v2 s query = Some u
        \<and> http_Get (rewrite u) = http_Get (rewrite (invoiceUrl_v1 s query))"
      by simp
  qed
  moreover have "isl (ToUrl ln') \<longrightarrow>
            lightning_address_details_v1 (\<lambda>u. http_Get (rewrite u)) ln'
              = Inr (JSON 400 \<lparr>Lnurlp = JNull, Keysend = JNull, Nostr = JNull,
                               Error = \<lparr>Status = 0, Message = []\<rparr>\<rparr>)
          \<and> lightning_address_details_v2 http_Get ln'
              = Inr (JSON 400 \<lparr>Lnurlp = JNull, Keysend = JNull, Nostr = JNull\<rparr>)"
    by (cases "ToUrl ln'")
       (simp_all add: lightning_address_details_v1_def lightning_address_details_v2_def Let_def)
  ultimately show ?thesis using urls by blast
qed

text \<open>
  The hypotheses hold for the example upstream and the example request, where the
  callback is \<^verbatim>\<open>https://pay.example/cb\<close> and both variants fetch
  \<^verbatim>\<open>https://pay.example/cb?amount=1000\<close>.
\<close>

theorem variants_agree_witness:
  "generate_invoice_v1 (\<lambda>u. example_upstream (rewrite u)) example_query
     = Inr \<lparr>Code = 200, CacheControl = None, Pretty = True,
            Payload = \<lparr>Invoice = JObject [(''pr'', JString ''lnbc1'')]\<rparr>\<rparr>
   \<and> generate_invoice_v2 example_upstream example_query
     = Inr \<lparr>Code = 200, CacheControl = None, Pretty = True,
            Payload = \<lparr>Invoice = JObject [(''pr'', JString ''lnbc1'')]\<rparr>\<rparr>
   \<and> invoiceUrl_v2 ''https://pay.example/cb'' example_query
     = Some ''https://pay.example/cb?amount=1000''
   \<and> lightning_address_details_v2 example_upstream ''noatsign''
     = Inr \<lparr>Code = 400, CacheControl = None, Pretty = False,
            Payload = \<lparr>Lnurlp = JNull, Keysend = JNull, Nostr = JNull\<rparr>\<rparr>"
proof -
  have urls: "ToUrl (Values_Get example_query ''ln'')
      = Inr (''https://getalby.com/.well-known/lnurlp/hello'',
             ''https://getalby.com/.well-known/keysend/hello'',
             ''https://getalby.com/.well-known/nostr.json?name=hello'')"
    by code_simp
  have rw: "rewrite ''https://getalby.com/.well-known/lnurlp/hello''
      = ''http://alby-mainnet-getalbycom/.well-known/lnurlp/hello''"
    by code_simp
  have cb: "plain_callback ''https://pay.example/cb''" by code_simp
  have keys: "distinct (map fst example_query)" by code_simp
  have param: "Values_pairs (Values_Del example_query ''ln'') \<noteq> []" by code_simp
  have bad: "isl (ToUrl ''noatsign'')" by code_simp
  have u1: "invoiceUrl_v1 ''https://pay.example/cb'' example_query
      = ''https://pay.example/cb?amount=1000''"
    by code_simp
  have g1: "generate_invoice_v1 (\<lambda>u. example_upstream (rewrite u)) example_query
     = Inr \<lparr>Code = 200, CacheControl = None, Pretty = True,
            Payload = \<lparr>Invoice = JObject [(''pr'', JString ''lnbc1'')]\<rparr>\<rparr>"
    by code_simp
  have plain: "plain_callback s"
    if "ToUrl (Values_Get example_query ''ln'') = Inr (lnurlpUrl, keysendUrl, nostrUrl)"
      and "example_upstream (rewrite lnurlpUrl) = GetOk lr"
      and "StatusCode lr \<le> 300"
      and "Body lr = Inr (JObject m)"
      and "index m ''callback'' = JString s"
    for lnurlpUrl keysendUrl nostrUrl lr m s
  proof -
    from that(1) urls have "lnurlpUrl = ''https://getalby.com/.well-known/lnurlp/hello''"
      by simp
    with that(2) rw have "lr = \<lparr>StatusCode = 200, Header = [(''Cache-Control'', [''max-age=60''])],
                  Body = Inr (JObject [(''callback'', JString ''https://pay.example/cb'')])\<rparr>"
      by (simp add: example_upstream_def)
    with that(4) have "m = [(''callback'', JString ''https://pay.example/cb'')]" by simp
    with that(5) have "s = ''https://pay.example/cb''" by (simp add: index_def)
    with cb show ?thesis by simp
  qed
  have "generate_invoice_v2 example_upstream example_query
           = generate_invoice_v1 (\<lambda>u. example_upstream (rewrite u)) example_query
       \<and> (\<forall>s. plain_callback s
              \<longrightarrow> invoiceUrl_v2 s example_query = Some (invoiceUrl_v1 s example_query))
       \<and> (isl (ToUrl ''noatsign'') \<longrightarrow>
            lightning_address_details_v1 (\<lambda>u. example_upstream (rewrite u)) ''noatsign''
              = Inr (JSON 400 \<lparr>Lnurlp = JNull, Keysend = JNull, Nostr = JNull,
                               Error = \<lparr>Status = 0, Message = []\<rparr>\<rparr>)
          \<and> lightning_address_details_v2 example_upstream ''noatsign''
              = Inr (JSON 400 \<lparr>Lnurlp = JNull, Keysend = JNull, Nostr = JNull\<rparr>))"
    by (rule variants_agree) (rule plain keys param; assumption)+
  with cb bad g1 u1 show ?thesis by (simp add: JSON_def)
qed

text \<open>
  C10, as stated, fails, at three requests. For an identifier without \<^verbatim>\<open>@\<close> both
  variants reply 400, but the body of \<^verbatim>\<open>main.go\<close> has an \<^verbatim>\<open>error\<close> object that the body
  of the second variant does not have. When no upstream can be reached, every response is
  nil whatever the scheduling: \<^verbatim>\<open>main.go\<close> panics where the second variant replies 400.
  For a callback with a query of its own and an upstream that serves the invoice at the
  merged URL only, \<^verbatim>\<open>main.go\<close> replies 400 and the second variant 200 with the invoice.
\<close>

theorem variants_differ:
  "surface LNResponse_v1_json
     (lightning_address_details_v1 (\<lambda>u. unreachable) ''noatsign'')
     = Inr \<lparr>Code = 400, CacheControl = None, Pretty = False,
            Payload = JObject [(''lnurlp'', JNull), (''keysend'', JNull), (''nostr'', JNull),
                               (''error'', JObject [(''status'', JNumber 0),
                                                    (''message'', JString [])])]\<rparr>
   \<and> surface LNResponse_json
     (lightning_address_details_v2 (\<lambda>u. unreachable) ''noatsign'')
     = Inr \<lparr>Code = 400, CacheControl = None, Pretty = False,
            Payload = JObject [(''lnurlp'', JNull), (''keysend'', JNull), (''nostr'', JNull)]\<rparr>
   \<and> lightning_address_details_v1 (\<lambda>u. unreachable) ''alice@example.com''
     = Inl NilPointerDereference
   \<and> lightning_address_details_v2 (\<lambda>u. unreachable) ''alice@example.com''
     = Inr \<lparr>Code = 400, CacheControl = None, Pretty = False,
            Payload = \<lparr>Lnurlp = JNull, Keysend = JNull, Nostr = JNull\<rparr>\<rparr>
   \<and> generate_invoice_v1 (\<lambda>u. merged_only_upstream (rewrite u))
       [(''ln'', [''alice@example.com'']), (''comment'', [''hi''])]
     = Inr \<lparr>Code = 400, CacheControl = None, Pretty = False, Payload = \<lparr>Invoice = JNull\<rparr>\<rparr>
   \<and> generate_invoice_v2 merged_only_upstream
       [(''ln'', [''alice@example.com'']), (''comment'', [''hi''])]
     = Inr \<lparr>Code = 200, CacheControl = None, Pretty = True,
            Payload = \<lparr>Invoice = JObject [(''pr'', JString ''lnbc1'')]\<rparr>\<rparr>"
  by code_simp

end
